theory Spec2Isabelle
  imports Main "HOL-Library.Word"
begin

section \<open>The keyboard layout of layout.c\<close>

text \<open>
  The headers \<^verbatim>\<open>blusb.h\<close> and \<^verbatim>\<open>layout.h\<close> are not part of the sources at hand. They
  fix the three constants \<^verbatim>\<open>NUMROWS\<close>, \<^verbatim>\<open>NUMCOLS\<close> and \<^verbatim>\<open>NUMLAYERS_MAX\<close> and the struct
  \<^verbatim>\<open>bl_layout_t\<close>. The constants are parameters of every definition below. They are
  array dimensions, hence natural numbers; the counters \<^verbatim>\<open>layer\<close>, \<^verbatim>\<open>row\<close> and \<^verbatim>\<open>col\<close> of
  the parser start at zero and are only ever incremented or reset, so they are natural
  numbers as well. A comparison such as \<^verbatim>\<open>col == NUMCOLS-1\<close> is written
  \<open>col + 1 = NUMCOLS\<close>, which is the same statement over the integers and does not
  depend on truncating subtraction.
\<close>

type_synonym u8 = "8 word"
type_synonym u16 = "16 word"

record dims =
  NUMROWS :: nat
  NUMCOLS :: nat
  NUMLAYERS_MAX :: nat

text \<open>
  \<^verbatim>\<open>bl_layout_t\<close>: the number of layers and the array \<^verbatim>\<open>matrix[layer][row][col]\<close> of
  16-bit key codes. The array is kept as a map from index triples to cells: a cell
  that was never stored to is \<open>None\<close> (the memory comes from \<^verbatim>\<open>malloc\<close> and is
  indeterminate), and the domain of the map records which index triples the program
  stored to. That includes triples outside the declared bounds: C does not check an
  index, and what such a store overwrites is not defined, so the map keeps it under
  the triple it was made with.
\<close>

record bl_layout =
  nlayers :: nat
  matrix :: "nat \<times> nat \<times> nat \<Rightarrow> u16 option"

text \<open>\<^verbatim>\<open>bl_create_layout\<close> (lines 51-57): the number of layers is set, the matrix is left undefined.\<close>

definition bl_create_layout :: "nat \<Rightarrow> bl_layout" where
  "bl_create_layout n = \<lparr>nlayers = n, matrix = (\<lambda>_. None)\<rparr>"

section \<open>Characters and \<^verbatim>\<open>atoi\<close>\<close>

text \<open>\<^verbatim>\<open>isdigit\<close>: the characters from \<^verbatim>\<open>'0'\<close> (48) to \<^verbatim>\<open>'9'\<close> (57).\<close>

definition isdigit :: "char \<Rightarrow> bool" where
  "isdigit c = ((48::nat) \<le> of_char c \<and> (of_char c :: nat) \<le> 57)"

text \<open>The line break and the other blanks tested at lines 116 and 140.\<close>

definition is_linebreak :: "char \<Rightarrow> bool" where
  "is_linebreak c = (c = CHR 0x0A \<or> c = CHR 0x0D)"

definition is_blank :: "char \<Rightarrow> bool" where
  "is_blank c = (c = CHR 0x0A \<or> c = CHR 0x0D \<or> c = CHR '' '' \<or> c = CHR 0x09)"

text \<open>
  \<^verbatim>\<open>atoi\<close> on the parse buffer, which only ever holds decimal digits: the value of the
  leading digits, zero for the empty string. C leaves \<^verbatim>\<open>atoi\<close> undefined when the value
  does not fit an \<^verbatim>\<open>int\<close>; every statement below about values is about key codes below
  \<open>65536\<close>. The assignment to a \<^verbatim>\<open>uint16_t\<close> cell reduces modulo \<open>2 ^ 16\<close>, which is
  \<open>word_of_nat\<close>.
\<close>

definition digit_val :: "char \<Rightarrow> nat" where
  "digit_val c = of_char c - 48"

definition atoi :: "string \<Rightarrow> nat" where
  "atoi s = foldl (\<lambda>n c. 10 * n + digit_val c) 0 (takeWhile isdigit s)"

section \<open>The parser \<^verbatim>\<open>bl_parse_layout_file\<close>\<close>

datatype bl_state = BL_STATE_DIGIT | BL_STATE_WHITESPACE

text \<open>
  The local variables of \<^verbatim>\<open>bl_parse_layout_file\<close>. The stream \<^verbatim>\<open>f\<close> and the current
  character \<^verbatim>\<open>ch\<close> are one field: \<open>src\<close> holds \<^verbatim>\<open>ch\<close> followed by what \<^verbatim>\<open>f\<close> has not
  delivered yet. So \<^verbatim>\<open>feof(f)\<close> is \<open>src = []\<close>, \<^verbatim>\<open>ch\<close> is the head of \<open>src\<close> and
  \<^verbatim>\<open>ch = fgetc(f)\<close> drops the head.
\<close>

record parser =
  src :: string
  layer :: nat
  col :: nat
  row :: nat
  state :: bl_state
  parse_buffer :: string
  layout :: bl_layout

text \<open>
  The diagnostics the function prints before it returns \<^verbatim>\<open>NULL\<close>, by the names of the
  specification: \<open>SourceUnavailable\<close> is line 67, \<open>BufferOverflow\<close> line 97,
  \<open>MalformedLayer\<close> lines 121 (too few keys in a row) and 126 (too few rows in a
  layer), \<open>UnexpectedCharacter\<close> line 134 and \<open>IncompleteLayout\<close> line 160.
\<close>

datatype error =
  SourceUnavailable
  | BufferOverflow
  | MalformedLayer
  | UnexpectedCharacter
  | IncompleteLayout

text \<open>\<^verbatim>\<open>layout->matrix[layer][row][col] = atoi(parse_buffer)\<close> (lines 106-107, 117, 155).\<close>

definition store_key :: "parser \<Rightarrow> parser" where
  "store_key p =
     p\<lparr>layout := (layout p)\<lparr>matrix :=
          (matrix (layout p))((layer p, row p, col p) := Some (word_of_nat (atoi (parse_buffer p))))\<rparr>\<rparr>"

text \<open>
  One pass through the body of the \<^verbatim>\<open>while\<close> loop (lines 94-149), entered with a
  current character. \<open>Inl\<close> is a \<^verbatim>\<open>return NULL\<close> from inside the loop.
\<close>

definition loop_body :: "dims \<Rightarrow> parser \<Rightarrow> error + parser" where
  "loop_body d p =
     (let ch = hd (src p) in
      case state p of
        BL_STATE_DIGIT \<Rightarrow>
          if isdigit ch then
            if length (parse_buffer p) \<ge> 19 then Inl BufferOverflow
            else Inr (p\<lparr>parse_buffer := parse_buffer p @ [ch], src := tl (src p)\<rparr>)
          else if ch = CHR '','' then
            let p1 = (store_key p)\<lparr>parse_buffer := []\<rparr>;
                p2 = (if col p1 + 1 = NUMCOLS d then p1\<lparr>col := 0, row := row p1 + 1\<rparr>
                      else p1\<lparr>col := col p1 + 1\<rparr>)
            in Inr (p2\<lparr>state := BL_STATE_WHITESPACE, src := tl (src p2)\<rparr>)
          else if is_linebreak ch then
            let p1 = (store_key p)\<lparr>parse_buffer := [], state := BL_STATE_WHITESPACE\<rparr>
            in if col p1 + 1 < NUMCOLS d then Inl MalformedLayer
               else if row p1 + 1 < NUMROWS d then Inl MalformedLayer
               else Inr (p1\<lparr>layer := layer p1 + 1, col := 0, row := 0, src := tl (src p1)\<rparr>)
          else Inl UnexpectedCharacter
      | BL_STATE_WHITESPACE \<Rightarrow>
          if is_blank ch then Inr (p\<lparr>src := tl (src p)\<rparr>)
          else if isdigit ch then Inr (p\<lparr>state := BL_STATE_DIGIT\<rparr>)
          else Inr p)"

text \<open>
  The loop \<^verbatim>\<open>while (!feof(f))\<close>. It need not end, so it is a partial function: \<open>None\<close>
  is a run that never leaves the loop.
\<close>

partial_function (option) parse_loop :: "dims \<Rightarrow> parser \<Rightarrow> (error + parser) option" where
  "parse_loop d p =
     (if src p = [] then Some (Inr p)
      else case loop_body d p of
             Inl e \<Rightarrow> Some (Inl e)
           | Inr p' \<Rightarrow> parse_loop d p')"

declare parse_loop.simps [code]

text \<open>
  What a call leaves behind: the value returned (\<open>Inl\<close> for \<^verbatim>\<open>NULL\<close>, with the diagnostic
  printed) and the state of the stream \<^verbatim>\<open>f\<close>.
\<close>

datatype stream_status = NotOpened | Open | Closed

record parse_result =
  result :: "error + bl_layout"
  stream :: stream_status

text \<open>The state at line 92, after the first \<^verbatim>\<open>fgetc\<close>.\<close>

definition parser_init :: "dims \<Rightarrow> string \<Rightarrow> parser" where
  "parser_init d txt =
     \<lparr>src = txt, layer = 0, col = 0, row = 0, state = BL_STATE_WHITESPACE,
      parse_buffer = [], layout = bl_create_layout (NUMLAYERS_MAX d)\<rparr>"

text \<open>Lines 151-168, after the loop.\<close>

definition parse_finish :: "dims \<Rightarrow> parser \<Rightarrow> parse_result" where
  "parse_finish d p =
     (let p1 = (if length (parse_buffer p) > 0 then store_key p else p);
          lay = (layout p1)\<lparr>nlayers := layer p1\<rparr>
      in if (row p1 > 0 \<and> row p1 + 1 < NUMROWS d) \<or> (col p1 > 0 \<and> col p1 + 1 < NUMCOLS d)
         then \<lparr>result = Inl IncompleteLayout, stream = Closed\<rparr>
         else \<lparr>result = Inr lay, stream = Closed\<rparr>)"

text \<open>
  \<^verbatim>\<open>bl_parse_layout_file\<close> (lines 63-169). The argument is what \<^verbatim>\<open>fopen(fname, "r")\<close>
  gives: \<open>None\<close> when the file cannot be opened, else the text of the file. The result
  is \<open>None\<close> when the call never returns. A \<^verbatim>\<open>return NULL\<close> from inside the loop leaves
  without \<^verbatim>\<open>fclose\<close>.
\<close>

definition bl_parse_layout_file :: "dims \<Rightarrow> string option \<Rightarrow> parse_result option" where
  "bl_parse_layout_file d file =
     (case file of
        None \<Rightarrow> Some \<lparr>result = Inl SourceUnavailable, stream = NotOpened\<rparr>
      | Some txt \<Rightarrow>
          (case parse_loop d (parser_init d txt) of
             None \<Rightarrow> None
           | Some (Inl e) \<Rightarrow> Some \<lparr>result = Inl e, stream = Open\<rparr>
           | Some (Inr p) \<Rightarrow> Some (parse_finish d p)))"

section \<open>The encoder \<^verbatim>\<open>bl_layout_convert\<close>\<close>

text \<open>
  \<^verbatim>\<open>bl_layout_convert\<close> (lines 26-43). The buffer is seen through the \<^verbatim>\<open>uint16_t\<close> pointer
  the function writes through: a list of 16-bit units, \<open>None\<close> where \<^verbatim>\<open>malloc\<close>'s memory was
  never written. The inner \<^verbatim>\<open>int n\<close> of line 34 hides the one of line 30.
\<close>

definition bl_layout_convert :: "dims \<Rightarrow> bl_layout \<Rightarrow> u16 option list" where
  "bl_layout_convert d lay =
     (let data = replicate (1 + nlayers lay * NUMCOLS d * NUMROWS d) None;
          data = data[0 := Some (word_of_nat (nlayers lay))]
      in fold (\<lambda>layer. fold (\<lambda>row. fold (\<lambda>col data.
                 let n = layer * NUMROWS d * NUMCOLS d + row * NUMCOLS d + col
                 in data[n := matrix lay (layer, row, col)])
               [0..<NUMCOLS d]) [0..<NUMROWS d]) [0..<nlayers lay] data)"

text \<open>
  The bytes of the buffer on a little-endian host (the function stores through a
  \<^verbatim>\<open>uint16_t\<close> pointer, so the byte order is the host's): low byte first.
\<close>

definition le_bytes :: "u16 \<Rightarrow> u8 list" where
  "le_bytes w = [ucast w, ucast (drop_bit 8 w)]"

definition unit_bytes :: "u16 option \<Rightarrow> u8 option list" where
  "unit_bytes u = (case u of None \<Rightarrow> [None, None] | Some w \<Rightarrow> map Some (le_bytes w))"

definition data_bytes :: "u16 option list \<Rightarrow> u8 option list" where
  "data_bytes data = concat (map unit_bytes data)"

section \<open>The write flow \<^verbatim>\<open>bl_layout_write\<close>\<close>

text \<open>The pointer a call of \<^verbatim>\<open>bl_parse_layout_file\<close> returns: \<open>None\<close> is \<^verbatim>\<open>NULL\<close>.\<close>

definition returned :: "parse_result \<Rightarrow> bl_layout option" where
  "returned r = (case result r of Inl e \<Rightarrow> None | Inr lay \<Rightarrow> Some lay)"

text \<open>
  A call of \<^verbatim>\<open>bl_layout_convert\<close> on a pointer: line 28 reads \<^verbatim>\<open>layout->nlayers\<close>
  through it, which is a fault when the pointer is \<^verbatim>\<open>NULL\<close>.
\<close>

datatype fault = NullDereference

definition bl_layout_convert_at :: "dims \<Rightarrow> bl_layout option \<Rightarrow> fault + u16 option list" where
  "bl_layout_convert_at d ptr =
     (case ptr of
        None \<Rightarrow> Inl NullDereference
      | Some lay \<Rightarrow> Inr (bl_layout_convert d lay))"

text \<open>
  \<^verbatim>\<open>bl_layout_write\<close> (lines 198-206) hands the pointer it gets from the parser to
  \<^verbatim>\<open>bl_layout_convert\<close> without looking at it, and then reads \<^verbatim>\<open>layout->nlayers\<close>
  for the transport. The transport \<^verbatim>\<open>bl_usb_write_layout\<close> is not part of the sources
  at hand; a call of it is kept as the pair of its arguments. As for the parser, the
  argument is what \<^verbatim>\<open>fopen\<close> gives for the file name, and the result is \<open>None\<close> when
  the parser never returns.
\<close>

record usb_call =
  usb_data :: "u16 option list"
  usb_nlayers :: nat

definition bl_layout_write :: "dims \<Rightarrow> string option \<Rightarrow> (fault + usb_call) option" where
  "bl_layout_write d file =
     (case bl_parse_layout_file d file of
        None \<Rightarrow> None
      | Some r \<Rightarrow>
          Some (let ptr = returned r in
                case bl_layout_convert_at d ptr of
                  Inl flt \<Rightarrow> Inl flt
                | Inr data \<Rightarrow>
                    (case ptr of
                       None \<Rightarrow> Inl NullDereference
                     | Some lay \<Rightarrow> Inr \<lparr>usb_data = data, usb_nlayers = nlayers lay\<rparr>)))"

section \<open>Reading the buffer back\<close>

text \<open>
  The decoder the specification describes: bytes \<open>[0,2)\<close> are the layer count, each
  following group of two bytes is one cell, in layer, row, column order, all
  little-endian. A group with a byte that was never written has no value.
\<close>

definition le_u16 :: "u8 \<Rightarrow> u8 \<Rightarrow> u16" where
  "le_u16 lo hi = ucast lo + push_bit 8 (ucast hi)"

definition spec_decode_unit :: "u8 option list \<Rightarrow> nat \<Rightarrow> u16 option" where
  "spec_decode_unit bytes k =
     (if 2 * k + 1 < length bytes
      then (case (bytes ! (2 * k), bytes ! (2 * k + 1)) of
              (Some lo, Some hi) \<Rightarrow> Some (le_u16 lo hi)
            | _ \<Rightarrow> None)
      else None)"

definition spec_decode_layer_count :: "u8 option list \<Rightarrow> u16 option" where
  "spec_decode_layer_count bytes = spec_decode_unit bytes 0"

definition spec_decode_cell :: "dims \<Rightarrow> u8 option list \<Rightarrow> nat \<times> nat \<times> nat \<Rightarrow> u16 option" where
  "spec_decode_cell d bytes i =
     (case i of (l, r, c) \<Rightarrow>
        spec_decode_unit bytes (1 + (l * NUMROWS d * NUMCOLS d + r * NUMCOLS d + c)))"

section \<open>Layout texts\<close>

text \<open>A key code in decimal.\<close>

fun decimal :: "nat \<Rightarrow> string" where
  "decimal n =
     (if n < 10 then [char_of (48 + n)]
      else decimal (n div 10) @ [char_of (48 + n mod 10)])"

declare decimal.simps [simp del]

text \<open>
  The text the specification calls a valid layout: every row is its keys separated by
  commas and ends with a line break; a layer is its rows, a layout its layers.
\<close>

fun comma_separated :: "nat list \<Rightarrow> string" where
  "comma_separated [] = []"
| "comma_separated [n] = decimal n"
| "comma_separated (n # ns) = decimal n @ '','' @ comma_separated ns"

definition spec_row_text :: "nat list \<Rightarrow> string" where
  "spec_row_text ns = comma_separated ns @ [CHR 0x0A]"

definition spec_layout_text :: "nat list list list \<Rightarrow> string" where
  "spec_layout_text ls = concat (map (\<lambda>rows. concat (map spec_row_text rows)) ls)"

text \<open>
  The text the parser takes for a layout. A key is its decimal digits, with any blanks
  in front of it. Inside a layer every key but the last is followed by a comma; the
  last key of the layer is followed by a line break. Rows are not marked: they come
  from counting keys.
\<close>

type_synonym key = "string \<times> nat"

definition key_text :: "key \<Rightarrow> string" where
  "key_text k = fst k @ decimal (snd k)"

fun layer_text :: "key list \<Rightarrow> string" where
  "layer_text [] = []"
| "layer_text [k] = key_text k @ [CHR 0x0A]"
| "layer_text (k # ks) = key_text k @ '','' @ layer_text ks"

definition layout_text :: "key list list \<Rightarrow> string" where
  "layout_text ls = concat (map layer_text ls)"

definition valid_key :: "key \<Rightarrow> bool" where
  "valid_key k = (list_all is_blank (fst k) \<and> snd k < 65536)"

definition valid_layer :: "dims \<Rightarrow> key list \<Rightarrow> bool" where
  "valid_layer d ks = (length ks = NUMROWS d * NUMCOLS d \<and> list_all valid_key ks)"

text \<open>
  The dimensions of the examples: two rows of three columns, as in the scenario of the
  specification, and the six layers the comment at lines 10-13 speaks of.
\<close>

definition dims_2x3 :: dims where
  "dims_2x3 = \<lparr>NUMROWS = 2, NUMCOLS = 3, NUMLAYERS_MAX = 6\<rparr>"

text \<open>The diagnostic of a call that returned \<^verbatim>\<open>NULL\<close>.\<close>

definition diagnostic :: "parse_result \<Rightarrow> error option" where
  "diagnostic r = (case result r of Inl e \<Rightarrow> Some e | Inr lay \<Rightarrow> None)"

text \<open>The layout a call returns for a file with the given text, if it returns one.\<close>

definition parsed_layout :: "dims \<Rightarrow> string \<Rightarrow> bl_layout option" where
  "parsed_layout d txt = Option.bind (bl_parse_layout_file d (Some txt)) returned"

text \<open>The cells of a layer inside the declared bounds, row by row.\<close>

definition layer_cells :: "dims \<Rightarrow> bl_layout \<Rightarrow> nat \<Rightarrow> u16 option list list" where
  "layer_cells d lay l =
     map (\<lambda>r. map (\<lambda>c. matrix lay (l, r, c)) [0..<NUMCOLS d]) [0..<NUMROWS d]"

text \<open>
  A parser state the loop cannot leave: in the whitespace state, at a character that is
  neither a blank nor a digit (lines 146-148 print and change nothing).
\<close>

definition stuck :: "parser \<Rightarrow> bool" where
  "stuck p =
     (state p = BL_STATE_WHITESPACE \<and> src p \<noteq> [] \<and>
      \<not> is_blank (hd (src p)) \<and> \<not> isdigit (hd (src p)))"

text \<open>
  The cells a run of keys leaves in the matrix. The key with number \<open>j\<close> of a layer
  (counted from zero) goes to row \<open>j div C\<close> and column \<open>j mod C\<close>, where \<open>C\<close> is
  the number of columns; the layers of a layout go to consecutive layer indices.
\<close>

fun put_keys :: "nat \<Rightarrow> nat \<Rightarrow> nat \<Rightarrow> key list \<Rightarrow> (nat \<times> nat \<times> nat \<Rightarrow> u16 option) \<Rightarrow> (nat \<times> nat \<times> nat \<Rightarrow> u16 option)" where
  "put_keys C l j [] m = m"
| "put_keys C l j (k # ks) m =
     put_keys C l (Suc j) ks (m((l, j div C, j mod C) := Some (word_of_nat (snd k))))"

fun put_layers :: "nat \<Rightarrow> nat \<Rightarrow> key list list \<Rightarrow> (nat \<times> nat \<times> nat \<Rightarrow> u16 option) \<Rightarrow> (nat \<times> nat \<times> nat \<Rightarrow> u16 option)" where
  "put_layers C l [] m = m"
| "put_layers C l (ks # kss) m = put_layers C (Suc l) kss (put_keys C l 0 ks m)"

section \<open>The loop at a character it does not expect\<close>

lemma loop_body_stuck: "stuck p \<Longrightarrow> loop_body d p = Inr p"
  by (simp add: stuck_def loop_body_def)

lemma parse_loop_Some_not_stuck:
  assumes "parse_loop d p = Some y"
  shows "\<not> stuck p"
proof (rule parse_loop.raw_induct [OF _ assms])
  fix f d p y
  assume IH: "\<And>d p y. f d p = Some y \<Longrightarrow> \<not> stuck p"
    and eq: "(if src p = [] then Some (Inr p)
              else case loop_body d p of Inl e \<Rightarrow> Some (Inl e) | Inr p' \<Rightarrow> f d p') = Some y"
  show "\<not> stuck p"
  proof
    assume s: "stuck p"
    then have "src p \<noteq> []" by (simp add: stuck_def)
    with eq loop_body_stuck [OF s] have "f d p = Some y" by simp
    from IH [OF this] s show False by simp
  qed
qed

lemma parse_loop_stuck: "stuck p \<Longrightarrow> parse_loop d p = None"
  using parse_loop_Some_not_stuck [of d p] by (cases "parse_loop d p") auto

text \<open>
  C4 says that the parser returns on every finite input, with a layout or with an
  error. On the one-character file \<^verbatim>\<open>x\<close> it does not: the loop is entered in the
  whitespace state, line 147 prints the diagnostic, and neither the character nor the
  state changes, so the call never returns, whatever the dimensions are.
\<close>

theorem parse_never_returns_on_stray_character:
  "bl_parse_layout_file d (Some ''x'') = None"
proof -
  have "stuck (parser_init d ''x'')"
    by (simp add: stuck_def parser_init_def is_blank_def isdigit_def)
  then show ?thesis
    by (simp add: bl_parse_layout_file_def parse_loop_stuck)
qed

section \<open>Runs on concrete files\<close>

text \<open>
  C1 says that the encoded buffer starts with the layer count and goes on with the
  cells. The file \<^verbatim>\<open>7,2,3,4,5,6\<close> with a final line break, at two rows of three
  columns, parses to one layer; the buffer made from it starts with the bytes
  \<^verbatim>\<open>07 00\<close> of the first cell where the count \<^verbatim>\<open>01 00\<close> should be, every cell sits
  one group too early, and the last group was never written.
\<close>

theorem convert_overwrites_layer_count:
  "map_option (\<lambda>lay. (nlayers lay, data_bytes (bl_layout_convert dims_2x3 lay)))
     (parsed_layout dims_2x3 ''7,2,3,4,5,6\<newline>'')
   = Some (1, [Some 7, Some 0, Some 2, Some 0, Some 3, Some 0, Some 4, Some 0,
               Some 5, Some 0, Some 6, Some 0, None, None])"
  by code_simp

text \<open>
  C2, as stated, has the file \<^verbatim>\<open>1,2,3\<close>, line break, \<^verbatim>\<open>4,5,6\<close>, line break parse to
  one layer at two rows of three columns. The parser takes the first line break for
  the end of a layer, finds one row where two are due, and gives up with the
  diagnostic for a malformed layer.
\<close>

theorem parse_rows_on_lines_rejected:
  "map_option (\<lambda>r. (diagnostic r, stream r))
     (bl_parse_layout_file dims_2x3 (Some ''1,2,3\<newline>4,5,6\<newline>''))
   = Some (Some MalformedLayer, Open)"
  by code_simp

text \<open>
  C2, amended: at two rows of three columns the file \<^verbatim>\<open>1,2,3\<close>, line break,
  \<^verbatim>\<open>4,5,6\<close>, line break is rejected as a malformed layer; with a comma after the last
  key of the first row as well, that is the file \<^verbatim>\<open>1,2,3,\<close>, line break, \<^verbatim>\<open>4,5,6\<close>,
  line break, the parse succeeds with exactly one layer whose cells are
  \<open>[[1,2,3],[4,5,6]]\<close>, and the buffer encoded from it is fourteen bytes long.
\<close>

theorem parse_scenario_one_layer:
  "map_option diagnostic
     (bl_parse_layout_file dims_2x3 (Some ''1,2,3\<newline>4,5,6\<newline>''))
   = Some (Some MalformedLayer)
   \<and> map_option (\<lambda>lay. (nlayers lay, layer_cells dims_2x3 lay 0,
                         length (data_bytes (bl_layout_convert dims_2x3 lay))))
       (parsed_layout dims_2x3 ''1,2,3,\<newline>4,5,6\<newline>'')
     = Some (1, [[Some 1, Some 2, Some 3], [Some 4, Some 5, Some 6]], 14)"
  by code_simp

text \<open>
  C3, as stated, has every text of layers of rows, each row its keys separated by
  commas and ended by a line break, parse to those layers. The text of one layer with
  the rows \<open>10,20,30\<close> and \<open>40,50,60\<close> is rejected as a malformed layer.
\<close>

theorem parse_spec_layout_text_rejected:
  "map_option diagnostic
     (bl_parse_layout_file dims_2x3 (Some (spec_layout_text [[[10, 20, 30], [40, 50, 60]]])))
   = Some (Some MalformedLayer)"
  by code_simp

text \<open>
  C5 says that a successful parse returns at most \<^verbatim>\<open>NUMLAYERS_MAX\<close> layers and never
  stores a cell at layer index \<^verbatim>\<open>NUMLAYERS_MAX\<close>. With room for six layers, a file of
  seven well-formed layers parses successfully to a layout of seven layers, and the
  cells of the seventh were stored at layer index 6.
\<close>

theorem parse_seven_layers:
  "map_option (\<lambda>lay. (nlayers lay, layer_cells dims_2x3 lay 6))
     (parsed_layout dims_2x3 (concat (replicate 7 ''1,2,3,4,5,6\<newline>'')))
   = Some (7, [[Some 1, Some 2, Some 3], [Some 4, Some 5, Some 6]])"
  by code_simp

text \<open>
  C6 says that a layout without the final line break parses to all its layers, the
  one finished by the last key included. The file \<^verbatim>\<open>1,2,3,4,5,6\<close> without a line
  break parses successfully and all six cells of layer 0 are stored, but the layout
  returned has no layer: line 157 takes the counter that only a line break advances.
\<close>

theorem parse_without_final_linebreak_drops_layer:
  "map_option (\<lambda>lay. (nlayers lay, layer_cells dims_2x3 lay 0))
     (parsed_layout dims_2x3 ''1,2,3,4,5,6'')
   = Some (0, [[Some 1, Some 2, Some 3], [Some 4, Some 5, Some 6]])"
  by code_simp

text \<open>
  C7 says that reading the encoded buffer back gives the layer count and every cell
  of the layout. For the layout parsed from \<^verbatim>\<open>7,2,3,4,5,6\<close> with a final line break
  the layout has one layer, first cell 7 and last cell 6; read back, the buffer gives
  the layer count 7, the first cell 2 and no value for the last cell.
\<close>

theorem decode_convert_differs:
  "map_option
     (\<lambda>lay. ((nlayers lay, matrix lay (0, 0, 0), matrix lay (0, 1, 2)),
             (spec_decode_layer_count (data_bytes (bl_layout_convert dims_2x3 lay)),
              spec_decode_cell dims_2x3 (data_bytes (bl_layout_convert dims_2x3 lay)) (0, 0, 0),
              spec_decode_cell dims_2x3 (data_bytes (bl_layout_convert dims_2x3 lay)) (0, 1, 2))))
     (parsed_layout dims_2x3 ''7,2,3,4,5,6\<newline>'')
   = Some ((1, Some 7, Some 6), (Some 7, Some 2, None))"
  by code_simp

text \<open>
  C8 says that the stream is closed on every way out of the parser. On the file
  \<^verbatim>\<open>1x\<close> the parser leaves at line 136 with the diagnostic for an unexpected
  character, and the stream is still open, whatever the dimensions are.
\<close>

theorem parse_error_leaves_stream_open:
  "map_option (\<lambda>r. (diagnostic r, stream r)) (bl_parse_layout_file d (Some ''1x''))
   = Some (Some UnexpectedCharacter, Open)"
  by code_simp

text \<open>
  C9 says that the write flow does not encode the result of a failed parse. For a
  file that cannot be opened the parser returns \<^verbatim>\<open>NULL\<close>, and the write flow passes
  it to the encoder, which reads through the null pointer, whatever the dimensions
  are.
\<close>

theorem write_converts_null:
  "bl_layout_write d None = Some (Inl NullDereference)"
  by code_simp

text \<open>
  C10 says that every cell is stored at a row below \<^verbatim>\<open>NUMROWS\<close> and a column below
  \<^verbatim>\<open>NUMCOLS\<close>. On the file \<^verbatim>\<open>1,2,3,4,5,6,7\<close>, at two rows of three columns, the comma
  after the sixth key moves on to row 2, the parse succeeds, and the seventh key is
  stored at row 2.
\<close>

theorem parse_stores_beyond_last_row:
  "map_option (\<lambda>lay. matrix lay (0, 2, 0)) (parsed_layout dims_2x3 ''1,2,3,4,5,6,7'')
   = Some (Some 7)"
  by code_simp

section \<open>Decimal numerals\<close>

lemma isdigit_digit_char: "(k::nat) < 10 \<Longrightarrow> isdigit (char_of (48 + k))"
  by (simp add: isdigit_def)

lemma digit_val_digit_char: "(k::nat) < 10 \<Longrightarrow> digit_val (char_of (48 + k)) = k"
  by (simp add: digit_val_def)

lemma decimal_digits: "list_all isdigit (decimal n)"
proof (induction n rule: decimal.induct)
  case (1 n)
  show ?case
  proof (cases "n < 10")
    case True
    then show ?thesis by (subst decimal.simps) (simp add: isdigit_digit_char)
  next
    case False
    with 1 show ?thesis by (subst decimal.simps) (simp add: isdigit_digit_char)
  qed
qed

lemma decimal_nonempty: "decimal n \<noteq> []"
  by (subst decimal.simps) simp

lemma foldl_decimal: "foldl (\<lambda>n c. 10 * n + digit_val c) 0 (decimal n) = n"
proof (induction n rule: decimal.induct)
  case (1 n)
  show ?case
  proof (cases "n < 10")
    case True
    then show ?thesis by (subst decimal.simps) (simp add: digit_val_digit_char)
  next
    case False
    with 1 show ?thesis by (subst decimal.simps) (simp add: digit_val_digit_char)
  qed
qed

lemma atoi_decimal: "atoi (decimal n) = n"
proof -
  have "takeWhile isdigit (decimal n) = decimal n"
    using decimal_digits [of n] by (simp add: takeWhile_eq_all_conv list_all_iff)
  then show ?thesis
    by (simp only: atoi_def foldl_decimal)
qed

lemma length_decimal: "n < 10 ^ Suc k \<Longrightarrow> length (decimal n) \<le> Suc k"
proof (induction k arbitrary: n)
  case 0
  then show ?case by (subst decimal.simps) simp
next
  case (Suc k)
  show ?case
  proof (cases "n < 10")
    case True
    then show ?thesis by (subst decimal.simps) simp
  next
    case False
    from Suc.prems have "n div 10 < 10 ^ Suc k" by (simp add: less_mult_imp_div_less)
    from Suc.IH [OF this] False show ?thesis by (subst decimal.simps) simp
  qed
qed

lemma length_decimal_key: "n < 65536 \<Longrightarrow> length (decimal n) \<le> 19"
  using length_decimal [of n 4] by simp

section \<open>The loop on well-formed keys\<close>

lemma isdigit_not_blank: "isdigit c \<Longrightarrow> \<not> is_blank c"
  by (auto simp: isdigit_def is_blank_def)

lemma parse_loop_step:
  "src p \<noteq> [] \<Longrightarrow> loop_body d p = Inr p' \<Longrightarrow> parse_loop d p = parse_loop d p'"
  by (subst parse_loop.simps) simp

lemma parse_loop_end: "src p = [] \<Longrightarrow> parse_loop d p = Some (Inr p)"
  by (subst parse_loop.simps) simp

lemma skip_blanks:
  "list_all is_blank ws \<Longrightarrow>
   parse_loop d \<lparr>src = ws @ rest, layer = l, col = c, row = r, state = BL_STATE_WHITESPACE,
                 parse_buffer = b, layout = lay\<rparr>
   = parse_loop d \<lparr>src = rest, layer = l, col = c, row = r, state = BL_STATE_WHITESPACE,
                   parse_buffer = b, layout = lay\<rparr>"
proof (induction ws)
  case Nil
  then show ?case by simp
next
  case (Cons w ws)
  then show ?case
    by (subst parse_loop_step [where p' = "\<lparr>src = ws @ rest, layer = l, col = c, row = r,
          state = BL_STATE_WHITESPACE, parse_buffer = b, layout = lay\<rparr>"])
       (simp_all add: loop_body_def)
qed

lemma read_digits:
  "list_all isdigit ds \<Longrightarrow> length b + length ds \<le> 19 \<Longrightarrow>
   parse_loop d \<lparr>src = ds @ rest, layer = l, col = c, row = r, state = BL_STATE_DIGIT,
                 parse_buffer = b, layout = lay\<rparr>
   = parse_loop d \<lparr>src = rest, layer = l, col = c, row = r, state = BL_STATE_DIGIT,
                   parse_buffer = b @ ds, layout = lay\<rparr>"
proof (induction ds arbitrary: b)
  case Nil
  then show ?case by simp
next
  case (Cons x ds)
  have "parse_loop d \<lparr>src = (x # ds) @ rest, layer = l, col = c, row = r, state = BL_STATE_DIGIT,
                 parse_buffer = b, layout = lay\<rparr>
      = parse_loop d \<lparr>src = ds @ rest, layer = l, col = c, row = r, state = BL_STATE_DIGIT,
                 parse_buffer = b @ [x], layout = lay\<rparr>"
    using Cons.prems by (intro parse_loop_step) (simp_all add: loop_body_def)
  also have "\<dots> = parse_loop d \<lparr>src = rest, layer = l, col = c, row = r, state = BL_STATE_DIGIT,
                   parse_buffer = (b @ [x]) @ ds, layout = lay\<rparr>"
    using Cons.prems by (intro Cons.IH) simp_all
  finally show ?case by simp
qed


lemma read_key:
  assumes "valid_key k"
  shows "parse_loop d \<lparr>src = key_text k @ rest, layer = l, col = c, row = r,
                 state = BL_STATE_WHITESPACE, parse_buffer = [], layout = lay\<rparr>
   = parse_loop d \<lparr>src = rest, layer = l, col = c, row = r, state = BL_STATE_DIGIT,
                   parse_buffer = decimal (snd k), layout = lay\<rparr>"
proof -
  obtain x xs where dec: "decimal (snd k) = x # xs"
    using decimal_nonempty [of "snd k"] by (cases "decimal (snd k)") auto
  have x: "isdigit x"
    using decimal_digits [of "snd k"] by (simp add: dec)
  have "parse_loop d \<lparr>src = key_text k @ rest, layer = l, col = c, row = r,
                 state = BL_STATE_WHITESPACE, parse_buffer = [], layout = lay\<rparr>
      = parse_loop d \<lparr>src = decimal (snd k) @ rest, layer = l, col = c, row = r,
                 state = BL_STATE_WHITESPACE, parse_buffer = [], layout = lay\<rparr>"
    using assms by (simp add: key_text_def valid_key_def skip_blanks)
  also have "\<dots> = parse_loop d \<lparr>src = decimal (snd k) @ rest, layer = l, col = c, row = r,
                 state = BL_STATE_DIGIT, parse_buffer = [], layout = lay\<rparr>"
    using x by (intro parse_loop_step) (simp_all add: dec loop_body_def isdigit_not_blank)
  also have "\<dots> = parse_loop d \<lparr>src = rest, layer = l, col = c, row = r,
                 state = BL_STATE_DIGIT, parse_buffer = [] @ decimal (snd k), layout = lay\<rparr>"
    using assms by (intro read_digits) (simp_all add: decimal_digits length_decimal_key valid_key_def)
  finally show ?thesis by simp
qed

lemma not_isdigit_comma: "\<not> isdigit CHR '',''"
  by (simp add: isdigit_def)

lemma not_isdigit_newline: "\<not> isdigit (CHR 0x0A)"
  by (simp add: isdigit_def)

lemma read_key_comma:
  assumes "valid_key k"
  shows "parse_loop d \<lparr>src = key_text k @ CHR '','' # rest, layer = l, col = c, row = r,
                 state = BL_STATE_WHITESPACE, parse_buffer = [], layout = \<lparr>nlayers = nl, matrix = m\<rparr>\<rparr>
   = parse_loop d \<lparr>src = rest, layer = l,
        col = (if c + 1 = NUMCOLS d then 0 else c + 1),
        row = (if c + 1 = NUMCOLS d then r + 1 else r),
        state = BL_STATE_WHITESPACE, parse_buffer = [],
        layout = \<lparr>nlayers = nl, matrix = m((l, r, c) := Some (word_of_nat (snd k)))\<rparr>\<rparr>"
proof -
  have "parse_loop d \<lparr>src = key_text k @ CHR '','' # rest, layer = l, col = c, row = r,
                 state = BL_STATE_WHITESPACE, parse_buffer = [], layout = \<lparr>nlayers = nl, matrix = m\<rparr>\<rparr>
      = parse_loop d \<lparr>src = CHR '','' # rest, layer = l, col = c, row = r,
                 state = BL_STATE_DIGIT, parse_buffer = decimal (snd k), layout = \<lparr>nlayers = nl, matrix = m\<rparr>\<rparr>"
    by (rule read_key [OF assms])
  also have "\<dots> = parse_loop d \<lparr>src = rest, layer = l,
        col = (if c + 1 = NUMCOLS d then 0 else c + 1),
        row = (if c + 1 = NUMCOLS d then r + 1 else r),
        state = BL_STATE_WHITESPACE, parse_buffer = [],
        layout = \<lparr>nlayers = nl, matrix = m((l, r, c) := Some (word_of_nat (snd k)))\<rparr>\<rparr>"
    by (intro parse_loop_step)
       (simp_all add: loop_body_def store_key_def atoi_decimal not_isdigit_comma)
  finally show ?thesis .
qed

lemma read_key_newline:
  assumes "valid_key k" and "c + 1 = NUMCOLS d" and "r + 1 = NUMROWS d"
  shows "parse_loop d \<lparr>src = key_text k @ CHR 0x0A # rest, layer = l, col = c, row = r,
                 state = BL_STATE_WHITESPACE, parse_buffer = [], layout = \<lparr>nlayers = nl, matrix = m\<rparr>\<rparr>
   = parse_loop d \<lparr>src = rest, layer = l + 1, col = 0, row = 0,
        state = BL_STATE_WHITESPACE, parse_buffer = [],
        layout = \<lparr>nlayers = nl, matrix = m((l, r, c) := Some (word_of_nat (snd k)))\<rparr>\<rparr>"
proof -
  have "parse_loop d \<lparr>src = key_text k @ CHR 0x0A # rest, layer = l, col = c, row = r,
                 state = BL_STATE_WHITESPACE, parse_buffer = [], layout = \<lparr>nlayers = nl, matrix = m\<rparr>\<rparr>
      = parse_loop d \<lparr>src = CHR 0x0A # rest, layer = l, col = c, row = r,
                 state = BL_STATE_DIGIT, parse_buffer = decimal (snd k), layout = \<lparr>nlayers = nl, matrix = m\<rparr>\<rparr>"
    by (rule read_key [OF assms(1)])
  also have "\<dots> = parse_loop d \<lparr>src = rest, layer = l + 1, col = 0, row = 0,
        state = BL_STATE_WHITESPACE, parse_buffer = [],
        layout = \<lparr>nlayers = nl, matrix = m((l, r, c) := Some (word_of_nat (snd k)))\<rparr>\<rparr>"
    using assms(2,3)
    by (intro parse_loop_step)
       (simp_all add: loop_body_def store_key_def atoi_decimal not_isdigit_newline is_linebreak_def)
  finally show ?thesis .
qed

lemma read_layer:
  assumes "0 < NUMCOLS d"
  shows "ks \<noteq> [] \<Longrightarrow> list_all valid_key ks \<Longrightarrow> j + length ks = NUMROWS d * NUMCOLS d \<Longrightarrow>
    parse_loop d \<lparr>src = layer_text ks @ rest, layer = l, col = j mod NUMCOLS d,
                  row = j div NUMCOLS d, state = BL_STATE_WHITESPACE, parse_buffer = [],
                  layout = \<lparr>nlayers = nl, matrix = m\<rparr>\<rparr>
    = parse_loop d \<lparr>src = rest, layer = l + 1, col = 0, row = 0,
                  state = BL_STATE_WHITESPACE, parse_buffer = [],
                  layout = \<lparr>nlayers = nl, matrix = put_keys (NUMCOLS d) l j ks m\<rparr>\<rparr>"
proof (induction ks arbitrary: j m rule: layer_text.induct)
  case 1
  then show ?case by simp
next
  case (2 k)
  then have j: "Suc j = NUMROWS d * NUMCOLS d" by simp
  then have m: "Suc j mod NUMCOLS d = 0" by simp
  with assms have c: "j mod NUMCOLS d + 1 = NUMCOLS d"
    by (simp add: mod_Suc split: if_splits)
  from j have "Suc j div NUMCOLS d = NUMROWS d" using assms by simp
  with m have r: "j div NUMCOLS d + 1 = NUMROWS d"
    by (simp add: div_Suc)
  from 2 have k: "valid_key k" by simp
  show ?case
    by (simp only: layer_text.simps put_keys.simps append_assoc append_Cons append_Nil
          read_key_newline [OF k c r])
next
  case (3 k k' ks)
  from 3 have k: "valid_key k" by simp
  have pos: "(if j mod NUMCOLS d + 1 = NUMCOLS d then 0 else j mod NUMCOLS d + 1) = Suc j mod NUMCOLS d"
    "(if j mod NUMCOLS d + 1 = NUMCOLS d then j div NUMCOLS d + 1 else j div NUMCOLS d) = Suc j div NUMCOLS d"
    by (simp_all add: mod_Suc div_Suc)
  have "parse_loop d \<lparr>src = layer_text (k # k' # ks) @ rest, layer = l, col = j mod NUMCOLS d,
                  row = j div NUMCOLS d, state = BL_STATE_WHITESPACE, parse_buffer = [],
                  layout = \<lparr>nlayers = nl, matrix = m\<rparr>\<rparr>
      = parse_loop d \<lparr>src = layer_text (k' # ks) @ rest, layer = l, col = Suc j mod NUMCOLS d,
                  row = Suc j div NUMCOLS d, state = BL_STATE_WHITESPACE, parse_buffer = [],
                  layout = \<lparr>nlayers = nl, matrix = m((l, j div NUMCOLS d, j mod NUMCOLS d) := Some (word_of_nat (snd k)))\<rparr>\<rparr>"
    using read_key_comma [OF k, of d "layer_text (k' # ks) @ rest" l "j mod NUMCOLS d" "j div NUMCOLS d" nl m]
    by (simp only: pos layer_text.simps append_assoc append_Cons append_Nil)
  also have "\<dots> = parse_loop d \<lparr>src = rest, layer = l + 1, col = 0, row = 0,
                  state = BL_STATE_WHITESPACE, parse_buffer = [],
                  layout = \<lparr>nlayers = nl, matrix = put_keys (NUMCOLS d) l (Suc j) (k' # ks)
                    (m((l, j div NUMCOLS d, j mod NUMCOLS d) := Some (word_of_nat (snd k))))\<rparr>\<rparr>"
    using "3.prems" by (intro "3.IH") simp_all
  finally show ?case by (simp only: put_keys.simps)
qed

lemma read_layers:
  assumes "0 < NUMROWS d" and "0 < NUMCOLS d"
  shows "list_all (valid_layer d) ls \<Longrightarrow>
    parse_loop d \<lparr>src = layout_text ls @ rest, layer = l, col = 0, row = 0,
                  state = BL_STATE_WHITESPACE, parse_buffer = [],
                  layout = \<lparr>nlayers = nl, matrix = m\<rparr>\<rparr>
    = parse_loop d \<lparr>src = rest, layer = l + length ls, col = 0, row = 0,
                  state = BL_STATE_WHITESPACE, parse_buffer = [],
                  layout = \<lparr>nlayers = nl, matrix = put_layers (NUMCOLS d) l ls m\<rparr>\<rparr>"
proof (induction ls arbitrary: l m)
  case Nil
  then show ?case by (simp add: layout_text_def)
next
  case (Cons ks ls)
  from Cons.prems have "valid_layer d ks" and rest: "list_all (valid_layer d) ls"
    by simp_all
  then have len: "0 + length ks = NUMROWS d * NUMCOLS d" and ok: "list_all valid_key ks"
    by (simp_all add: valid_layer_def)
  from len assms have ne: "ks \<noteq> []" by auto
  have "parse_loop d \<lparr>src = layout_text (ks # ls) @ rest, layer = l, col = 0, row = 0,
                  state = BL_STATE_WHITESPACE, parse_buffer = [],
                  layout = \<lparr>nlayers = nl, matrix = m\<rparr>\<rparr>
      = parse_loop d \<lparr>src = layer_text ks @ (layout_text ls @ rest), layer = l,
                  col = 0 mod NUMCOLS d, row = 0 div NUMCOLS d,
                  state = BL_STATE_WHITESPACE, parse_buffer = [],
                  layout = \<lparr>nlayers = nl, matrix = m\<rparr>\<rparr>"
    by (simp add: layout_text_def)
  also have "\<dots> = parse_loop d \<lparr>src = layout_text ls @ rest, layer = l + 1, col = 0, row = 0,
                  state = BL_STATE_WHITESPACE, parse_buffer = [],
                  layout = \<lparr>nlayers = nl, matrix = put_keys (NUMCOLS d) l 0 ks m\<rparr>\<rparr>"
    by (rule read_layer [OF assms(2) ne ok len])
  also have "\<dots> = parse_loop d \<lparr>src = rest, layer = (l + 1) + length ls, col = 0, row = 0,
                  state = BL_STATE_WHITESPACE, parse_buffer = [],
                  layout = \<lparr>nlayers = nl,
                    matrix = put_layers (NUMCOLS d) (l + 1) ls (put_keys (NUMCOLS d) l 0 ks m)\<rparr>\<rparr>"
    by (rule Cons.IH [OF rest])
  finally show ?case by simp
qed

section \<open>The cells a well-formed text leaves in the matrix\<close>

lemma put_keys_other_layer:
  "l' \<noteq> l \<Longrightarrow> put_keys C l j ks m (l', r, c) = m (l', r, c)"
  by (induction ks arbitrary: j m) simp_all

lemma cell_index_unique:
  "0 < C \<Longrightarrow> c < C \<Longrightarrow> (r = j div C \<and> c = j mod C) = (r * C + c = j)" for C :: nat
  by (auto simp: div_mult_mod_eq)

lemma put_keys_before:
  "0 < C \<Longrightarrow> c < C \<Longrightarrow> r * C + c < j \<Longrightarrow> put_keys C l j ks m (l, r, c) = m (l, r, c)"
proof (induction ks arbitrary: j m)
  case Nil
  then show ?case by simp
next
  case (Cons k ks)
  from Cons.prems have "\<not> (r = j div C \<and> c = j mod C)"
    by (simp add: cell_index_unique)
  with Cons show ?case by auto
qed

lemma put_keys_at:
  "0 < C \<Longrightarrow> c < C \<Longrightarrow> j \<le> r * C + c \<Longrightarrow> r * C + c < j + length ks \<Longrightarrow>
   put_keys C l j ks m (l, r, c) = Some (word_of_nat (snd (ks ! (r * C + c - j))))"
proof (induction ks arbitrary: j m)
  case Nil
  then show ?case by simp
next
  case (Cons k ks)
  show ?case
  proof (cases "r * C + c = j")
    case True
    with Cons.prems have "r = j div C \<and> c = j mod C"
      by (simp add: cell_index_unique)
    with True Cons.prems show ?thesis
      by (simp add: put_keys_before)
  next
    case False
    with Cons.prems have lt: "Suc j \<le> r * C + c" and up: "r * C + c < Suc j + length ks"
      by simp_all
    from lt have "(k # ks) ! (r * C + c - j) = ks ! (r * C + c - Suc j)"
      by (simp add: nth_Cons')
    with Cons.IH [OF Cons.prems(1,2) lt up] show ?thesis by simp
  qed
qed

lemma put_layers_below:
  "l' < l \<Longrightarrow> put_layers C l ls m (l', r, c) = m (l', r, c)"
  by (induction ls arbitrary: l m) (simp_all add: put_keys_other_layer)

lemma cell_index_bound: "r < R \<Longrightarrow> c < C \<Longrightarrow> r * C + c < R * C" for C :: nat
proof -
  assume r: "r < R" and c: "c < C"
  from r have "Suc r * C \<le> R * C"
    by (intro mult_le_mono1) simp
  with c show ?thesis by simp
qed

lemma put_layers_at:
  "0 < C \<Longrightarrow> c < C \<Longrightarrow> r < R \<Longrightarrow> list_all (\<lambda>ks. length ks = R * C) ls \<Longrightarrow>
   l0 \<le> l \<Longrightarrow> l < l0 + length ls \<Longrightarrow>
   put_layers C l0 ls m (l, r, c) = Some (word_of_nat (snd (ls ! (l - l0) ! (r * C + c))))"
proof (induction ls arbitrary: l0 m)
  case Nil
  then show ?case by simp
next
  case (Cons ks ls)
  from Cons.prems have len: "length ks = R * C" and rest: "list_all (\<lambda>ks. length ks = R * C) ls"
    by simp_all
  show ?case
  proof (cases "l = l0")
    case True
    from Cons.prems len have "r * C + c < 0 + length ks"
      by (simp add: cell_index_bound)
    from put_keys_at [OF Cons.prems(1,2) _ this, of l0 m] True show ?thesis
      by (simp add: put_layers_below)
  next
    case False
    with Cons.prems have lo: "Suc l0 \<le> l" and up: "l < Suc l0 + length ls"
      by simp_all
    from lo have "(ks # ls) ! (l - l0) = ls ! (l - Suc l0)"
      by (simp add: nth_Cons')
    with Cons.IH [OF Cons.prems(1,2,3) rest lo up] show ?thesis by simp
  qed
qed

lemma put_keys_outside:
  "0 < C \<Longrightarrow> l' \<noteq> l \<or> C \<le> c \<or> r * C + c < j \<or> j + length ks \<le> r * C + c \<Longrightarrow>
   put_keys C l j ks m (l', r, c) = m (l', r, c)"
proof (induction ks arbitrary: j m)
  case Nil
  then show ?case by simp
next
  case (Cons k ks)
  from Cons.prems have here: "\<not> (l' = l \<and> r = j div C \<and> c = j mod C)"
    by (cases "c < C") (auto simp: cell_index_unique)
  from Cons.prems have "l' \<noteq> l \<or> C \<le> c \<or> r * C + c < Suc j \<or> Suc j + length ks \<le> r * C + c"
    by auto
  from Cons.IH [OF Cons.prems(1) this] here show ?case by auto
qed

lemma put_layers_outside:
  "0 < C \<Longrightarrow> list_all (\<lambda>ks. length ks = R * C) ls \<Longrightarrow>
   l < l0 \<or> l0 + length ls \<le> l \<or> R \<le> r \<or> C \<le> c \<Longrightarrow>
   put_layers C l0 ls m (l, r, c) = m (l, r, c)"
proof (induction ls arbitrary: l0 m)
  case Nil
  then show ?case by simp
next
  case (Cons ks ls)
  from Cons.prems have len: "length ks = R * C" and rest: "list_all (\<lambda>ks. length ks = R * C) ls"
    by simp_all
  from Cons.prems have next_layer: "l < Suc l0 \<or> Suc l0 + length ls \<le> l \<or> R \<le> r \<or> C \<le> c"
    by auto
  have "R \<le> r \<Longrightarrow> R * C \<le> r * C + c"
    by (simp add: trans_le_add1)
  with Cons.prems len have "l \<noteq> l0 \<or> C \<le> c \<or> r * C + c < 0 \<or> 0 + length ks \<le> r * C + c"
    by auto
  from put_keys_outside [OF Cons.prems(1) this] Cons.IH [OF Cons.prems(1) rest next_layer]
  show ?case by simp
qed

section \<open>Well-formed texts parse to their keys\<close>

text \<open>
  The run of the parser on a well-formed text, in full: the layout returned and the
  state of the stream. No bound on the number of layers is needed for it, since
  nothing in the parser looks at \<^verbatim>\<open>NUMLAYERS_MAX\<close>.
\<close>

lemma parse_valid_layout_run:
  assumes "0 < NUMROWS d" and "0 < NUMCOLS d" and "list_all (valid_layer d) ls"
  shows "bl_parse_layout_file d (Some (layout_text ls))
         = Some \<lparr>result = Inr \<lparr>nlayers = length ls,
                                matrix = put_layers (NUMCOLS d) 0 ls (\<lambda>_. None)\<rparr>,
                 stream = Closed\<rparr>"
proof -
  let ?m = "put_layers (NUMCOLS d) 0 ls (\<lambda>_. None)"
  let ?p = "\<lparr>src = [], layer = 0 + length ls, col = 0, row = 0,
             state = BL_STATE_WHITESPACE, parse_buffer = [],
             layout = \<lparr>nlayers = NUMLAYERS_MAX d, matrix = ?m\<rparr>\<rparr>"
  have "parse_loop d (parser_init d (layout_text ls)) = parse_loop d ?p"
    using read_layers [OF assms, of "[]" 0 "NUMLAYERS_MAX d" "\<lambda>_. None"]
    by (simp add: parser_init_def bl_create_layout_def)
  also have "\<dots> = Some (Inr ?p)"
    by (rule parse_loop_end) simp
  finally show ?thesis
    by (simp add: bl_parse_layout_file_def parse_finish_def)
qed

lemma valid_layers_lengths:
  "list_all (valid_layer d) ls \<Longrightarrow> list_all (\<lambda>ks. length ks = NUMROWS d * NUMCOLS d) ls"
  by (simp add: list_all_iff valid_layer_def)

text \<open>
  On a well-formed text the parser stores to no cell outside the layers of the text and
  the declared rows and columns: every other cell of the layout returned is still
  unwritten.
\<close>

lemma parse_valid_layout_in_bounds:
  assumes "0 < NUMROWS d" and "0 < NUMCOLS d" and "list_all (valid_layer d) ls"
    and "length ls \<le> l \<or> NUMROWS d \<le> r \<or> NUMCOLS d \<le> c"
  shows "Option.bind (parsed_layout d (layout_text ls)) (\<lambda>lay. matrix lay (l, r, c)) = None"
proof -
  from assms(4) have "l < 0 \<or> 0 + length ls \<le> l \<or> NUMROWS d \<le> r \<or> NUMCOLS d \<le> c"
    by simp
  from put_layers_outside [OF assms(2) valid_layers_lengths [OF assms(3)] this, of "\<lambda>_. None"]
  show ?thesis
    by (simp add: parsed_layout_def returned_def parse_valid_layout_run [OF assms(1,2,3)])
qed

text \<open>
  C3, amended: take any number of layers up to \<^verbatim>\<open>NUMLAYERS_MAX\<close>, each of
  \<^verbatim>\<open>NUMROWS * NUMCOLS\<close> keys below 65536 written in decimal, where inside a layer every
  key but the last is followed by a comma and the last key of the layer by a line
  break, and blanks (spaces, tabs, line breaks) may stand in front of any key; the rows
  are not ended by line breaks of their own. Then the parser returns a layout, closes
  the stream, the number of layers of the layout is the number of layers of the text,
  and the cell at layer \<open>l\<close>, row \<open>r\<close>, column \<open>c\<close> is key number
  \<open>r * NUMCOLS + c\<close> of layer \<open>l\<close>: the keys in the order of the text.
\<close>

theorem parse_valid_layout:
  assumes "0 < NUMROWS d" and "0 < NUMCOLS d"
    and "list_all (valid_layer d) ls"
    and "length ls \<le> NUMLAYERS_MAX d"
  shows "\<exists>lay. bl_parse_layout_file d (Some (layout_text ls))
                 = Some \<lparr>result = Inr lay, stream = Closed\<rparr>
               \<and> nlayers lay = length ls
               \<and> (\<forall>l<length ls. \<forall>r<NUMROWS d. \<forall>c<NUMCOLS d.
                    map_option unat (matrix lay (l, r, c))
                    = Some (snd (ls ! l ! (r * NUMCOLS d + c))))"
proof -
  let ?m = "put_layers (NUMCOLS d) 0 ls (\<lambda>_. None)"
  have cells: "map_option unat (?m (l, r, c)) = Some (snd (ls ! l ! (r * NUMCOLS d + c)))"
    if l: "l < length ls" and r: "r < NUMROWS d" and c: "c < NUMCOLS d" for l r c
  proof -
    from l r c assms(3) have "valid_key (ls ! l ! (r * NUMCOLS d + c))"
      by (simp add: list_all_length valid_layer_def cell_index_bound)
    then have "snd (ls ! l ! (r * NUMCOLS d + c)) < 2 ^ 16"
      by (simp add: valid_key_def)
    then have "unat (word_of_nat (snd (ls ! l ! (r * NUMCOLS d + c))) :: u16)
        = snd (ls ! l ! (r * NUMCOLS d + c))"
      by (simp add: unat_of_nat)
    with put_layers_at [OF assms(2) c r valid_layers_lengths [OF assms(3)] _ _, of 0 l "\<lambda>_. None"] l
    show ?thesis by simp
  qed
  with parse_valid_layout_run [OF assms(1,2,3)] show ?thesis by simp
qed

theorem parse_valid_layout_witness:
  "0 < NUMROWS dims_2x3 \<and> 0 < NUMCOLS dims_2x3
   \<and> list_all (valid_layer dims_2x3)
        [[([], 1), ([], 2), ([], 3), (''\<newline>'', 4), ([], 5), ([], 6)],
         [(''\<newline>'', 7), ('' '', 8), ([], 9), (''\<newline>  '', 10), ([], 11), ([], 65535)]]
   \<and> length [[([], 1), ([], 2), ([], 3), (''\<newline>'', 4), ([], 5), ([], 6 :: nat)],
         [(''\<newline>'', 7), ('' '', 8), ([], 9), (''\<newline>  '', 10), ([], 11), ([], 65535)]]
       \<le> NUMLAYERS_MAX dims_2x3
   \<and> (\<exists>lay. bl_parse_layout_file dims_2x3
                (Some ''1,2,3,\<newline>4,5,6\<newline>\<newline>7, 8,9,\<newline>  10,11,65535\<newline>'')
              = Some \<lparr>result = Inr lay, stream = Closed\<rparr>
            \<and> nlayers lay = 2
            \<and> map_option unat (matrix lay (0, 0, 0)) = Some 1
            \<and> map_option unat (matrix lay (1, 1, 2)) = Some 65535)"
proof -
  let ?ls = "([[([], 1), ([], 2), ([], 3), (''\<newline>'', 4), ([], 5), ([], 6)],
         [(''\<newline>'', 7), ('' '', 8), ([], 9), (''\<newline>  '', 10), ([], 11), ([], 65535)]] :: key list list)"
  have h1: "0 < NUMROWS dims_2x3" and h2: "0 < NUMCOLS dims_2x3"
    by (simp_all add: dims_2x3_def)
  have h3: "list_all (valid_layer dims_2x3) ?ls"
    by (simp add: dims_2x3_def valid_layer_def valid_key_def is_blank_def)
  have h4: "length ?ls \<le> NUMLAYERS_MAX dims_2x3"
    by (simp add: dims_2x3_def)
  have text_eq: "layout_text ?ls = ''1,2,3,\<newline>4,5,6\<newline>\<newline>7, 8,9,\<newline>  10,11,65535\<newline>''"
    by (simp add: layout_text_def key_text_def decimal.simps char_of_def bit_0)
  from parse_valid_layout [OF h1 h2 h3 h4] obtain lay where
    run: "bl_parse_layout_file dims_2x3 (Some (layout_text ?ls)) = Some \<lparr>result = Inr lay, stream = Closed\<rparr>"
    and n: "nlayers lay = length ?ls"
    and cells: "\<And>l r c. l < length ?ls \<Longrightarrow> r < NUMROWS dims_2x3 \<Longrightarrow> c < NUMCOLS dims_2x3 \<Longrightarrow>
       map_option unat (matrix lay (l, r, c)) = Some (snd (?ls ! l ! (r * NUMCOLS dims_2x3 + c)))"
    by blast
  have c0: "map_option unat (matrix lay (0, 0, 0)) = Some 1"
    using cells [of 0 0 0] by (simp add: dims_2x3_def)
  have c1: "map_option unat (matrix lay (1, 1, 2)) = Some 65535"
    using cells [of 1 1 2] by (simp add: dims_2x3_def)
  from run have run': "bl_parse_layout_file dims_2x3
        (Some ''1,2,3,\<newline>4,5,6\<newline>\<newline>7, 8,9,\<newline>  10,11,65535\<newline>'')
      = Some \<lparr>result = Inr lay, stream = Closed\<rparr>"
    by (simp only: text_eq)
  from n have n': "nlayers lay = 2" by simp
  from run' n' c0 c1 have "\<exists>lay. bl_parse_layout_file dims_2x3
                (Some ''1,2,3,\<newline>4,5,6\<newline>\<newline>7, 8,9,\<newline>  10,11,65535\<newline>'')
              = Some \<lparr>result = Inr lay, stream = Closed\<rparr>
            \<and> nlayers lay = 2
            \<and> map_option unat (matrix lay (0, 0, 0)) = Some 1
            \<and> map_option unat (matrix lay (1, 1, 2)) = Some 65535"
    by blast
  with h1 h2 h3 h4 show ?thesis by blast
qed

section \<open>The size of the encoded buffer\<close>

lemma length_fold_update:
  assumes "\<And>x xs. length (f x xs) = length xs"
  shows "length (fold f ys xs) = length xs"
  using assms by (induction ys arbitrary: xs) simp_all

lemma length_bl_layout_convert:
  "length (bl_layout_convert d lay) = 1 + nlayers lay * NUMCOLS d * NUMROWS d"
  by (simp add: bl_layout_convert_def Let_def length_fold_update)

lemma length_data_bytes: "length (data_bytes data) = 2 * length data"
  by (induction data) (simp_all add: data_bytes_def unit_bytes_def le_bytes_def split: option.split)

lemma length_encoded:
  "length (data_bytes (bl_layout_convert d lay)) = 2 + 2 * nlayers lay * NUMROWS d * NUMCOLS d"
  by (simp add: length_data_bytes length_bl_layout_convert)

end
